theory Spec2Isabelle
  imports Main "HOL-Library.AList"
begin

section \<open>The file system the script runs against\<close>

text \<open>
  The script \<^verbatim>\<open>copy_and_verify.py\<close> is a straight line of calls into Python's
  \<^verbatim>\<open>os\<close>, \<^verbatim>\<open>os.path\<close> and \<^verbatim>\<open>shutil\<close> modules. Those library calls are modelled here
  from their documented behaviour on a POSIX system, for a process that is not the
  super-user: a file system is a table from resolved paths (lists of path components)
  to nodes, a node is a regular file (bytes and permission bits) or a directory
  (permission bits), and every call either returns or raises an \<^verbatim>\<open>OSError\<close>.
  Symbolic links, the components \<^verbatim>\<open>.\<close> and \<^verbatim>\<open>..\<close>, and search permission on
  directories are not modelled.
\<close>

datatype mode = Mode (can_read: bool) (can_write: bool)

datatype node = File string mode | Dir mode

record world =
  nodes :: "(string list \<times> node) list"
  cwd :: "string list"

datatype oserror =
    FileNotFoundError string
  | FileExistsError string
  | IsADirectoryError string
  | NotADirectoryError string
  | PermissionError string
  | SameFileError string string

subsection \<open>Paths\<close>

text \<open>The components of a path: the non-empty pieces between slashes.\<close>

fun segments :: "string \<Rightarrow> string \<Rightarrow> string list" where
  "segments cur [] = (if cur = [] then [] else [cur])"
| "segments cur (c # cs) =
     (if c = CHR ''/''
      then (if cur = [] then segments [] cs else cur # segments [] cs)
      else segments (cur @ [c]) cs)"

definition comps :: "string \<Rightarrow> string list" where
  "comps p = segments [] p"

definition is_abs :: "string \<Rightarrow> bool" where
  "is_abs p = (p \<noteq> [] \<and> hd p = CHR ''/'')"

definition trailing_slash :: "string \<Rightarrow> bool" where
  "trailing_slash p = (p \<noteq> [] \<and> last p = CHR ''/'')"

definition resolve :: "world \<Rightarrow> string \<Rightarrow> string list" where
  "resolve w p = (if is_abs p then comps p else cwd w @ comps p)"

definition lookup :: "world \<Rightarrow> string list \<Rightarrow> node option" where
  "lookup w k = map_of (nodes w) k"

definition put :: "string list \<Rightarrow> node \<Rightarrow> world \<Rightarrow> world" where
  "put k n w = w\<lparr>nodes := AList.update k n (nodes w)\<rparr>"

text \<open>\<^verbatim>\<open>posixpath.join(a, b)\<close> and \<^verbatim>\<open>posixpath.basename(p)\<close>.\<close>

definition path_join :: "string \<Rightarrow> string \<Rightarrow> string" where
  "path_join a b =
     (if b \<noteq> [] \<and> hd b = CHR ''/'' then b
      else if a = [] \<or> last a = CHR ''/'' then a @ b
      else a @ ''/'' @ b)"

definition basename :: "string \<Rightarrow> string" where
  "basename p = rev (takeWhile (\<lambda>c. c \<noteq> CHR ''/'') (rev p))"

subsection \<open>Library calls\<close>

text \<open>
  \<^verbatim>\<open>os.path.exists(p)\<close>: whether \<^verbatim>\<open>stat(p)\<close> succeeds. A path written with a trailing
  slash names a directory only.
\<close>

definition path_exists :: "world \<Rightarrow> string \<Rightarrow> bool" where
  "path_exists w p =
     (p \<noteq> [] \<and>
      (case lookup w (resolve w p) of
         None \<Rightarrow> False
       | Some (File b m) \<Rightarrow> \<not> trailing_slash p
       | Some (Dir m) \<Rightarrow> True))"

definition path_isdir :: "world \<Rightarrow> string \<Rightarrow> bool" where
  "path_isdir w p =
     (p \<noteq> [] \<and>
      (case lookup w (resolve w p) of
         None \<Rightarrow> False
       | Some (File b m) \<Rightarrow> False
       | Some (Dir m) \<Rightarrow> True))"

text \<open>
  The text under which \<^verbatim>\<open>os.makedirs\<close> names a parent directory that it makes on the
  way to the leaf.
\<close>

fun render :: "string list \<Rightarrow> string" where
  "render [] = ''/''"
| "render [c] = ''/'' @ c"
| "render (c # d # cs) = ''/'' @ c @ render (d # cs)"

text \<open>
  \<^verbatim>\<open>os.mkdir\<close> on the resolved path \<open>k\<close>, which the caller wrote as \<open>p\<close>: the new
  directory is readable and writable.
\<close>

definition mkdir_at :: "string list \<Rightarrow> string \<Rightarrow> world \<Rightarrow> oserror option \<times> world" where
  "mkdir_at k p w =
     (case lookup w k of
        Some n \<Rightarrow> (Some (FileExistsError p), w)
      | None \<Rightarrow>
          (case lookup w (butlast k) of
             None \<Rightarrow> (Some (FileNotFoundError p), w)
           | Some (File b m) \<Rightarrow> (Some (NotADirectoryError p), w)
           | Some (Dir m) \<Rightarrow>
               if can_write m
               then (None, w\<lparr>nodes := nodes w @ [(k, Dir (Mode True True))]\<rparr>)
               else (Some (PermissionError p), w)))"

text \<open>
  \<^verbatim>\<open>os.makedirs(name)\<close> with \<^verbatim>\<open>exist_ok=False\<close>: when the parent of the leaf does not
  exist it is made first, by the same procedure, and then the leaf is made with
  \<^verbatim>\<open>mkdir\<close>. A failure part of the way leaves the directories made so far.
\<close>

function makedirs_at :: "string list \<Rightarrow> string \<Rightarrow> world \<Rightarrow> oserror option \<times> world" where
  "makedirs_at k p w =
     (if k \<noteq> [] \<and> lookup w (butlast k) = None
      then (case makedirs_at (butlast k) (render (butlast k)) w of
              (Some e, w') \<Rightarrow> (Some e, w')
            | (None, w') \<Rightarrow> mkdir_at k p w')
      else mkdir_at k p w)"
  by pat_completeness auto
termination
  by (relation "measure (\<lambda>(k, p, w). length k)") auto

definition makedirs :: "string \<Rightarrow> world \<Rightarrow> oserror option \<times> world" where
  "makedirs p w =
     (if p = [] then (Some (FileNotFoundError p), w) else makedirs_at (resolve w p) p w)"

text \<open>Opening a file for reading and reading all of it; its mode is returned as well.\<close>

definition open_read :: "string \<Rightarrow> world \<Rightarrow> oserror + (string \<times> mode)" where
  "open_read p w =
     (if p = [] then Inl (FileNotFoundError p)
      else case lookup w (resolve w p) of
             None \<Rightarrow> Inl (FileNotFoundError p)
           | Some (Dir m) \<Rightarrow> Inl (IsADirectoryError p)
           | Some (File b m) \<Rightarrow>
               if trailing_slash p then Inl (NotADirectoryError p)
               else if can_read m then Inr (b, m)
               else Inl (PermissionError p))"

text \<open>
  Opening a file for writing (it is created, or truncated when it exists), writing the
  bytes \<open>b\<close> and closing it. With \<open>Some m\<close> the mode of the file is then set to \<open>m\<close>
  (\<^verbatim>\<open>shutil.copymode\<close>); with \<open>None\<close> an existing file keeps its mode and a new one is
  readable and writable.
\<close>

definition write_file :: "string \<Rightarrow> string \<Rightarrow> mode option \<Rightarrow> world \<Rightarrow> oserror + world" where
  "write_file p b mo w =
     (if p = [] then Inl (FileNotFoundError p)
      else
        let k = resolve w p in
        case lookup w k of
          Some (Dir m) \<Rightarrow> Inl (IsADirectoryError p)
        | Some (File old m) \<Rightarrow>
            if trailing_slash p then Inl (NotADirectoryError p)
            else if can_write m
            then Inr (put k (File b (case mo of None \<Rightarrow> m | Some m' \<Rightarrow> m')) w)
            else Inl (PermissionError p)
        | None \<Rightarrow>
            if trailing_slash p then Inl (IsADirectoryError p)
            else
              (case lookup w (butlast k) of
                 None \<Rightarrow> Inl (FileNotFoundError p)
               | Some (File old m) \<Rightarrow> Inl (NotADirectoryError p)
               | Some (Dir m) \<Rightarrow>
                   if can_write m
                   then Inr (put k (File b (case mo of None \<Rightarrow> Mode True True | Some m' \<Rightarrow> m')) w)
                   else Inl (PermissionError p)))"

text \<open>
  \<^verbatim>\<open>shutil.copy(src, dst)\<close>: when \<^verbatim>\<open>dst\<close> is a directory the file goes into it under the
  base name of \<^verbatim>\<open>src\<close>; copying a file onto itself raises \<^verbatim>\<open>SameFileError\<close>; the data
  is copied (\<^verbatim>\<open>copyfile\<close>) and then the permission bits (\<^verbatim>\<open>copymode\<close>).
\<close>

definition copy_target :: "world \<Rightarrow> string \<Rightarrow> string \<Rightarrow> string" where
  "copy_target w src dst = (if path_isdir w dst then path_join dst (basename src) else dst)"

definition samefile :: "world \<Rightarrow> string \<Rightarrow> string \<Rightarrow> bool" where
  "samefile w a b = (resolve w a = resolve w b \<and> lookup w (resolve w a) \<noteq> None)"

definition shutil_copy :: "string \<Rightarrow> string \<Rightarrow> world \<Rightarrow> oserror + world" where
  "shutil_copy src dst w =
     (let dst' = copy_target w src dst in
      if samefile w src dst' then Inl (SameFileError src dst')
      else case open_read src w of
             Inl e \<Rightarrow> Inl e
           | Inr (b, m) \<Rightarrow> write_file dst' b (Some m) w)"

text \<open>
  \<^verbatim>\<open>os.listdir(p)\<close>: the names of the entries of the directory, in the order in which
  the table holds them.
\<close>

definition children :: "world \<Rightarrow> string list \<Rightarrow> string list" where
  "children w k = map (\<lambda>e. last (fst e)) (filter (\<lambda>e. fst e \<noteq> [] \<and> butlast (fst e) = k) (nodes w))"

definition listdir :: "string \<Rightarrow> world \<Rightarrow> oserror + string list" where
  "listdir p w =
     (if p = [] then Inl (FileNotFoundError p)
      else case lookup w (resolve w p) of
             None \<Rightarrow> Inl (FileNotFoundError p)
           | Some (File b m) \<Rightarrow> Inl (NotADirectoryError p)
           | Some (Dir m) \<Rightarrow>
               if can_read m then Inr (children w (resolve w p))
               else Inl (PermissionError p))"

subsection \<open>Text of Python values\<close>

text \<open>
  \<^verbatim>\<open>repr\<close> of a string: single quotes, unless the string holds a single quote and no
  double quote; the quote in use and the backslash are escaped, as are the characters
  that do not print.
\<close>

definition hex_digit :: "nat \<Rightarrow> char" where
  "hex_digit n = (''0123456789abcdef'' ! (n mod 16))"

definition printable :: "char \<Rightarrow> bool" where
  "printable c =
     (let n = (of_char c :: nat) in (32 \<le> n \<and> n < 127) \<or> (161 \<le> n \<and> n \<noteq> 173))"

definition repr_char :: "char \<Rightarrow> char \<Rightarrow> string" where
  "repr_char q c =
     (if c = q \<or> c = CHR 0x5C then [CHR 0x5C, c]
      else if c = CHR 0x09 then [CHR 0x5C, CHR ''t'']
      else if c = CHR 0x0A then [CHR 0x5C, CHR ''n'']
      else if c = CHR 0x0D then [CHR 0x5C, CHR ''r'']
      else if printable c then [c]
      else [CHR 0x5C, CHR ''x'', hex_digit (of_char c div 16), hex_digit (of_char c)])"

definition py_repr :: "string \<Rightarrow> string" where
  "py_repr s =
     (let q = (if CHR 0x27 \<in> set s \<and> CHR 0x22 \<notin> set s then CHR 0x22 else CHR 0x27)
      in [q] @ concat (map (repr_char q) s) @ [q])"

text \<open>\<^verbatim>\<open>sep.join(xs)\<close> and \<^verbatim>\<open>str\<close> of a list of strings.\<close>

fun join_with :: "string \<Rightarrow> string list \<Rightarrow> string" where
  "join_with sep [] = []"
| "join_with sep [x] = x"
| "join_with sep (x # y # xs) = x @ sep @ join_with sep (y # xs)"

definition str_list :: "string list \<Rightarrow> string" where
  "str_list xs = ''['' @ join_with '', '' (map py_repr xs) @ '']''"

text \<open>\<^verbatim>\<open>str(e)\<close> of the errors above.\<close>

fun str_error :: "oserror \<Rightarrow> string" where
  "str_error (FileNotFoundError p) = ''[Errno 2] No such file or directory: '' @ py_repr p"
| "str_error (FileExistsError p) = ''[Errno 17] File exists: '' @ py_repr p"
| "str_error (IsADirectoryError p) = ''[Errno 21] Is a directory: '' @ py_repr p"
| "str_error (NotADirectoryError p) = ''[Errno 20] Not a directory: '' @ py_repr p"
| "str_error (PermissionError p) = ''[Errno 13] Permission denied: '' @ py_repr p"
| "str_error (SameFileError a b) = py_repr a @ '' and '' @ py_repr b @ '' are the same file''"

section \<open>The script\<close>

text \<open>
  The three module-level values \<^verbatim>\<open>src_dir\<close>, \<^verbatim>\<open>dst_dir\<close> and \<^verbatim>\<open>files\<close> are the
  configuration; \<open>the_config\<close> below holds the values the script assigns to them.
\<close>

record config =
  src_dir :: string
  dst_dir :: string
  files :: "(string \<times> string) list"

definition created_line :: "string \<Rightarrow> string" where
  "created_line d = ''Created directory '' @ d"

definition copied_line :: "string \<Rightarrow> string \<Rightarrow> string" where
  "copied_line src dst = ''Copied '' @ src @ '' to '' @ dst"

definition not_found_line :: "string \<Rightarrow> string" where
  "not_found_line src = ''Source file not found: '' @ src"

definition contents_line :: string where
  "contents_line = ''Destination contents:''"

definition error_line :: "oserror \<Rightarrow> string" where
  "error_line e = ''Error: '' @ str_error e"

definition log_path :: string where
  "log_path = ''copy_log.txt''"

text \<open>
  The \<^verbatim>\<open>for src_name, dst_name in files\<close> loop. The result is the exception that left
  the loop, if any, with the log and the file system as they were at that point.
\<close>

fun copy_loop ::
  "string \<Rightarrow> string \<Rightarrow> (string \<times> string) list \<Rightarrow> string list \<Rightarrow> world
     \<Rightarrow> oserror option \<times> string list \<times> world" where
  "copy_loop sd dd [] log w = (None, log, w)"
| "copy_loop sd dd ((src_name, dst_name) # rest) log w =
     (let src = path_join sd src_name;
          dst = path_join dd dst_name
      in if path_exists w src
         then (case shutil_copy src dst w of
                 Inl e \<Rightarrow> (Some e, log, w)
               | Inr w' \<Rightarrow> copy_loop sd dd rest (log @ [copied_line src dst]) w')
         else copy_loop sd dd rest (log @ [not_found_line src]) w)"

text \<open>The two statements after the loop; the heading is appended before the listing is taken.\<close>

definition list_step ::
  "string \<Rightarrow> string list \<Rightarrow> world \<Rightarrow> oserror option \<times> string list \<times> world" where
  "list_step dd log w =
     (case listdir dd w of
        Inl e \<Rightarrow> (Some e, log @ [contents_line], w)
      | Inr names \<Rightarrow> (None, log @ [contents_line, str_list names], w))"

definition loop_and_list ::
  "string \<Rightarrow> string \<Rightarrow> (string \<times> string) list \<Rightarrow> string list \<Rightarrow> world
     \<Rightarrow> oserror option \<times> string list \<times> world" where
  "loop_and_list sd dd fl log w =
     (case copy_loop sd dd fl log w of
        (Some e, log', w') \<Rightarrow> (Some e, log', w')
      | (None, log', w') \<Rightarrow> list_step dd log' w')"

text \<open>The body of the \<^verbatim>\<open>try\<close> statement, starting from the empty log.\<close>

definition try_block :: "config \<Rightarrow> world \<Rightarrow> oserror option \<times> string list \<times> world" where
  "try_block cfg w =
     (if \<not> path_exists w (dst_dir cfg)
      then (case makedirs (dst_dir cfg) w of
              (Some e, w') \<Rightarrow> (Some e, [], w')
            | (None, w') \<Rightarrow>
                loop_and_list (src_dir cfg) (dst_dir cfg) (files cfg)
                  [created_line (dst_dir cfg)] w')
      else loop_and_list (src_dir cfg) (dst_dir cfg) (files cfg) [] w)"

text \<open>The log once the \<^verbatim>\<open>except\<close> clause has run, and the file system at that point.\<close>

definition final_log :: "config \<Rightarrow> world \<Rightarrow> string list" where
  "final_log cfg w =
     (case try_block cfg w of
        (Some e, log, w') \<Rightarrow> log @ [error_line e]
      | (None, log, w') \<Rightarrow> log)"

definition world_after_try :: "config \<Rightarrow> world \<Rightarrow> world" where
  "world_after_try cfg w = snd (snd (try_block cfg w))"

text \<open>
  The whole script. The log is written outside the \<^verbatim>\<open>try\<close> statement, so an error
  raised there leaves the script: the first component is \<open>None\<close> when the script ends
  normally (exit status 0) and \<open>Some e\<close> when it ends with the uncaught exception \<open>e\<close>.
\<close>

definition copy_and_verify :: "config \<Rightarrow> world \<Rightarrow> oserror option \<times> world" where
  "copy_and_verify cfg w =
     (case write_file log_path (join_with [CHR 0x0A] (final_log cfg w)) None (world_after_try cfg w) of
        Inl e \<Rightarrow> (Some e, world_after_try cfg w)
      | Inr w' \<Rightarrow> (None, w'))"

definition the_config :: config where
  "the_config =
     \<lparr> src_dir = ''/Users/agustinmontoya/.gemini/antigravity/brain/78cdc80a-5658-49ad-b030-70cc2cb4da13/'',
       dst_dir = ''/Users/agustinmontoya/Projectos/MVPs/juego-cartas-educativo/mindspark-duel/public/assets/decks/'',
       files =
         [(''technomancer_epic_box_1764234646053.png'', ''technomancer-box.png''),
          (''nature_epic_box_1764234660611.png'', ''grove-guardians-box.png''),
          (''arcane_epic_box_1764234805234.png'', ''arcane-scholars-box.png'')] \<rparr>"

definition main :: "world \<Rightarrow> oserror option \<times> world" where
  "main w = copy_and_verify the_config w"

section \<open>Auxiliary definitions for the statements\<close>

definition same_dirs :: "world \<Rightarrow> world \<Rightarrow> bool" where
  "same_dirs w w' = (cwd w' = cwd w \<and> (\<forall>k m. (lookup w' k = Some (Dir m)) = (lookup w k = Some (Dir m))))"

definition entry_src :: "string \<Rightarrow> string \<times> string \<Rightarrow> string" where
  "entry_src sd e = path_join sd (fst e)"

definition entry_dst :: "string \<Rightarrow> string \<times> string \<Rightarrow> string" where
  "entry_dst dd e = path_join dd (snd e)"

definition is_entry_line :: "string \<Rightarrow> string \<Rightarrow> string \<times> string \<Rightarrow> string \<Rightarrow> bool" where
  "is_entry_line sd dd e l =
     (l = copied_line (entry_src sd e) (entry_dst dd e) \<or> l = not_found_line (entry_src sd e))"

definition demo_config :: config where
  "demo_config = \<lparr> src_dir = ''/in'', dst_dir = ''/out'',
      files = [(''a.png'', ''a2.png''), (''missing.png'', ''b2.png'')] \<rparr>"

definition demo_world :: world where
  "demo_world =
     \<lparr> nodes = [([], Dir (Mode True True)),
                ([''in''], Dir (Mode True True)),
                ([''in'', ''a.png''], File ''PNG-A'' (Mode True True)),
                ([''work''], Dir (Mode True True))],
       cwd = [''work''] \<rparr>"

definition is_created_line :: "string \<Rightarrow> bool" where
  "is_created_line l = (take 18 l = ''Created directory '')"

definition demo_world_out :: world where
  "demo_world_out = demo_world\<lparr>nodes := nodes demo_world @ [([''out''], Dir (Mode True True))]\<rparr>"

definition demo_world_file :: world where
  "demo_world_file = demo_world\<lparr>nodes := nodes demo_world @ [([''out''], File ''not a directory'' (Mode True True))]\<rparr>"

definition plain_ext :: "string list \<Rightarrow> string list \<Rightarrow> bool" where
  "plain_ext log log' = (\<exists>ext. log' = log @ ext \<and> (\<forall>l \<in> set ext. \<not> is_created_line l))"


definition dir_chain :: "string list \<Rightarrow> (string list \<times> node) list" where
  "dir_chain k = map (\<lambda>n. (take n k, Dir (Mode True True))) [0..<Suc (length k)]"

definition home :: "string list" where
  "home = [''Users'', ''agustinmontoya'']"

definition brain :: "string list" where
  "brain = home @ [''.gemini'', ''antigravity'', ''brain'', ''78cdc80a-5658-49ad-b030-70cc2cb4da13'']"

definition assets :: "string list" where
  "assets = home @ [''Projectos'', ''MVPs'', ''juego-cartas-educativo'', ''mindspark-duel'', ''public'', ''assets'']"

definition decks :: "string list" where
  "decks = assets @ [''decks'']"

text \<open>home, the source directory with the first image in it, and the assets directory; the
  script is started in the home directory.\<close>

definition home_world :: world where
  "home_world =
     \<lparr> nodes = dir_chain home @ drop 3 (dir_chain brain) @ drop 3 (dir_chain assets)
         @ [(brain @ [''technomancer_epic_box_1764234646053.png''], File ''PNG-1'' (Mode True True))],
       cwd = home \<rparr>"

definition add_node :: "string list \<Rightarrow> node \<Rightarrow> world \<Rightarrow> world" where
  "add_node k n w = w\<lparr>nodes := nodes w @ [(k, n)]\<rparr>"

definition home_tree :: "(string list \<times> node) list" where
  "home_tree = dir_chain home @ drop 3 (dir_chain brain) @ drop 3 (dir_chain assets)"

definition image1 :: "string list" where
  "image1 = brain @ [''technomancer_epic_box_1764234646053.png'']"

definition logfile :: "string list" where
  "logfile = home @ [''copy_log.txt'']"


definition stale_log_world :: world where
  "stale_log_world =
     \<lparr> nodes = home_tree @ [(image1, File ''PNG-1'' (Mode True True)),
                             (logfile, File ''old log'' (Mode True False))],
       cwd = home \<rparr>"

definition faulty_world :: world where
  "faulty_world =
     \<lparr> nodes = home_tree @ [(image1, Dir (Mode True True)), (logfile, Dir (Mode True True))],
       cwd = home \<rparr>"




definition loop_start :: "config \<Rightarrow> world \<Rightarrow> (string list \<times> world) option" where
  "loop_start cfg w =
     (if \<not> path_exists w (dst_dir cfg)
      then (case makedirs (dst_dir cfg) w of
              (Some e, w') \<Rightarrow> None
            | (None, w') \<Rightarrow> Some ([created_line (dst_dir cfg)], w'))
      else Some ([], w))"

definition writes_elsewhere :: "world \<Rightarrow> string \<Rightarrow> string \<Rightarrow> string list \<Rightarrow> string \<times> string \<Rightarrow> bool" where
  "writes_elsewhere w sd dd k e =
     (resolve w (entry_dst dd e) \<noteq> k
      \<and> resolve w (path_join (entry_dst dd e) (basename (entry_src sd e))) \<noteq> k)"

definition dir_destination_world :: world where
  "dir_destination_world =
     \<lparr> nodes = home_tree @ [(decks, Dir (Mode True True)),
                             (decks @ [''technomancer-box.png''], Dir (Mode True True)),
                             (image1, File ''PNG-1'' (Mode True True))],
       cwd = home \<rparr>"

section \<open>Properties\<close>

subsection \<open>Basic facts about the table\<close>

lemma lookup_put: "lookup (put k n w) k' = (if k' = k then Some n else lookup w k')"
  by (simp add: lookup_def put_def update_conv')

lemma cwd_put: "cwd (put k n w) = cwd w"
  by (simp add: put_def)

lemma resolve_put: "resolve (put k n w) p = resolve w p"
  by (simp add: resolve_def cwd_put)

lemma same_dirs_refl: "same_dirs w w"
  by (simp add: same_dirs_def)

lemma same_dirs_trans: "same_dirs a b \<Longrightarrow> same_dirs b c \<Longrightarrow> same_dirs a c"
  by (simp add: same_dirs_def)

lemma write_file_same_dirs: "write_file p b mo w = Inr w' \<Longrightarrow> same_dirs w w'"
  by (auto simp add: write_file_def same_dirs_def Let_def lookup_put cwd_put
      split: if_splits option.splits node.splits)

lemma shutil_copy_same_dirs: "shutil_copy src dst w = Inr w' \<Longrightarrow> same_dirs w w'"
  by (auto simp add: shutil_copy_def Let_def split: if_splits sum.splits dest: write_file_same_dirs)

lemma copy_loop_same_dirs:
  "copy_loop sd dd fl log w = (r, log', w') \<Longrightarrow> same_dirs w w'"
proof (induction fl arbitrary: log w)
  case Nil
  then show ?case by (simp add: same_dirs_refl)
next
  case (Cons a fl)
  obtain s d where a: "a = (s, d)" by (cases a)
  show ?case
  proof (cases "path_exists w (path_join sd s)")
    case False
    with Cons a show ?thesis by (simp add: Let_def)
  next
    case True
    show ?thesis
    proof (cases "shutil_copy (path_join sd s) (path_join dd d) w")
      case (Inl e)
      with Cons.prems a True show ?thesis by (simp add: Let_def same_dirs_refl)
    next
      case (Inr w1)
      with Cons.prems a True
      have "copy_loop sd dd fl (log @ [copied_line (path_join sd s) (path_join dd d)]) w1 = (r, log', w')"
        by (simp add: Let_def)
      then have "same_dirs w1 w'" by (rule Cons.IH)
      with shutil_copy_same_dirs [OF Inr] show ?thesis by (rule same_dirs_trans)
    qed
  qed
qed

lemma list_step_world: "list_step dd log w = (r, log', w') \<Longrightarrow> w' = w"
  by (auto simp add: list_step_def split: sum.splits)

lemma loop_and_list_same_dirs:
  "loop_and_list sd dd fl log w = (r, log', w') \<Longrightarrow> same_dirs w w'"
  by (auto simp add: loop_and_list_def split: prod.splits option.splits
      dest: copy_loop_same_dirs list_step_world)

subsection \<open>The loop, entry by entry\<close>

lemma copy_loop_append:
  "copy_loop sd dd (xs @ ys) log w =
     (case copy_loop sd dd xs log w of
        (None, l, w1) \<Rightarrow> copy_loop sd dd ys l w1
      | (Some e, l, w1) \<Rightarrow> (Some e, l, w1))"
proof (induction xs arbitrary: log w)
  case Nil
  show ?case by simp
next
  case (Cons a xs)
  obtain s d where a: "a = (s, d)" by (cases a)
  show ?case
    by (simp add: a Let_def Cons.IH split: sum.splits)
qed

lemma copied_not_not_found: "copied_line a b \<noteq> not_found_line c"
  by (simp add: copied_line_def not_found_line_def)

lemma copy_loop_step_not_found:
  "\<not> path_exists w (path_join sd s) \<Longrightarrow>
   copy_loop sd dd ((s, d) # rest) log w = copy_loop sd dd rest (log @ [not_found_line (path_join sd s)]) w"
  by (simp add: Let_def)

lemma copy_loop_step_copied:
  "path_exists w (path_join sd s) \<Longrightarrow> shutil_copy (path_join sd s) (path_join dd d) w = Inr w1 \<Longrightarrow>
   copy_loop sd dd ((s, d) # rest) log w =
     copy_loop sd dd rest (log @ [copied_line (path_join sd s) (path_join dd d)]) w1"
  by (simp add: Let_def)

lemma copy_loop_step_raised:
  "path_exists w (path_join sd s) \<Longrightarrow> shutil_copy (path_join sd s) (path_join dd d) w = Inl e \<Longrightarrow>
   copy_loop sd dd ((s, d) # rest) log w = (Some e, log, w)"
  by (simp add: Let_def)

lemma copy_loop_processed:
  "copy_loop sd dd fl log w = (r, log', w') \<Longrightarrow>
   \<exists>n ext. n \<le> length fl \<and> log' = log @ ext
     \<and> list_all2 (is_entry_line sd dd) (take n fl) ext
     \<and> copy_loop sd dd (take n fl) log w = (None, log', w')
     \<and> (case r of
          None \<Rightarrow> n = length fl
        | Some e \<Rightarrow> n < length fl \<and> path_exists w' (entry_src sd (fl ! n))
            \<and> shutil_copy (entry_src sd (fl ! n)) (entry_dst dd (fl ! n)) w' = Inl e)"
proof (induction fl arbitrary: log w)
  case Nil
  then show ?case by auto
next
  case (Cons a fl)
  obtain s d where a: "a = (s, d)" by (cases a)
  let ?src = "path_join sd s" and ?dst = "path_join dd d"
  show ?case
  proof (cases "path_exists w ?src")
    case False
    with Cons.prems a
    have "copy_loop sd dd fl (log @ [not_found_line ?src]) w = (r, log', w')"
      by (simp add: Let_def)
    from Cons.IH [OF this] obtain n ext where
      n: "n \<le> length fl" "log' = (log @ [not_found_line ?src]) @ ext"
         "list_all2 (is_entry_line sd dd) (take n fl) ext"
         "copy_loop sd dd (take n fl) (log @ [not_found_line ?src]) w = (None, log', w')"
         "(case r of None \<Rightarrow> n = length fl
           | Some e \<Rightarrow> n < length fl \<and> path_exists w' (entry_src sd (fl ! n))
               \<and> shutil_copy (entry_src sd (fl ! n)) (entry_dst dd (fl ! n)) w' = Inl e)"
      by blast
    have "Suc n \<le> length (a # fl)" using n(1) by simp
    moreover have "log' = log @ (not_found_line ?src # ext)" using n(2) by simp
    moreover have "list_all2 (is_entry_line sd dd) (take (Suc n) (a # fl)) (not_found_line ?src # ext)"
      using n(3) by (simp add: a is_entry_line_def entry_src_def)
    moreover have "copy_loop sd dd (take (Suc n) (a # fl)) log w = (None, log', w')"
      using n(4) False by (simp add: a Let_def)
    moreover have "(case r of None \<Rightarrow> Suc n = length (a # fl)
           | Some e \<Rightarrow> Suc n < length (a # fl) \<and> path_exists w' (entry_src sd ((a # fl) ! Suc n))
               \<and> shutil_copy (entry_src sd ((a # fl) ! Suc n)) (entry_dst dd ((a # fl) ! Suc n)) w' = Inl e)"
      using n(5) by (simp split: option.splits)
    ultimately show ?thesis by blast
  next
    case True
    show ?thesis
    proof (cases "shutil_copy ?src ?dst w")
      case (Inl e)
      with Cons.prems a True have res: "r = Some e" "log' = log" "w' = w"
        by (simp_all add: Let_def)
      have "0 \<le> length (a # fl)" by simp
      moreover have "log' = log @ []" using res by simp
      moreover have "list_all2 (is_entry_line sd dd) (take 0 (a # fl)) []" by simp
      moreover have "copy_loop sd dd (take 0 (a # fl)) log w = (None, log', w')" using res by simp
      moreover have "(case r of None \<Rightarrow> 0 = length (a # fl)
           | Some e \<Rightarrow> 0 < length (a # fl) \<and> path_exists w' (entry_src sd ((a # fl) ! 0))
               \<and> shutil_copy (entry_src sd ((a # fl) ! 0)) (entry_dst dd ((a # fl) ! 0)) w' = Inl e)"
        using res True Inl by (simp add: a entry_src_def entry_dst_def)
      ultimately show ?thesis by blast
    next
      case (Inr w1)
      with Cons.prems a True
      have "copy_loop sd dd fl (log @ [copied_line ?src ?dst]) w1 = (r, log', w')"
        by (simp add: Let_def)
      from Cons.IH [OF this] obtain n ext where
        n: "n \<le> length fl" "log' = (log @ [copied_line ?src ?dst]) @ ext"
           "list_all2 (is_entry_line sd dd) (take n fl) ext"
           "copy_loop sd dd (take n fl) (log @ [copied_line ?src ?dst]) w1 = (None, log', w')"
           "(case r of None \<Rightarrow> n = length fl
             | Some e \<Rightarrow> n < length fl \<and> path_exists w' (entry_src sd (fl ! n))
                 \<and> shutil_copy (entry_src sd (fl ! n)) (entry_dst dd (fl ! n)) w' = Inl e)"
        by blast
      have "Suc n \<le> length (a # fl)" using n(1) by simp
      moreover have "log' = log @ (copied_line ?src ?dst # ext)" using n(2) by simp
      moreover have "list_all2 (is_entry_line sd dd) (take (Suc n) (a # fl)) (copied_line ?src ?dst # ext)"
        using n(3) by (simp add: a is_entry_line_def entry_src_def entry_dst_def)
      moreover have "copy_loop sd dd (take (Suc n) (a # fl)) log w = (None, log', w')"
        using n(4) True Inr by (simp add: a Let_def)
      moreover have "(case r of None \<Rightarrow> Suc n = length (a # fl)
           | Some e \<Rightarrow> Suc n < length (a # fl) \<and> path_exists w' (entry_src sd ((a # fl) ! Suc n))
               \<and> shutil_copy (entry_src sd ((a # fl) ! Suc n)) (entry_dst dd ((a # fl) ! Suc n)) w' = Inl e)"
        using n(5) by (simp split: option.splits)
      ultimately show ?thesis by blast
    qed
  qed
qed

lemma created_line_is_created: "is_created_line (created_line d)"
  by (simp add: is_created_line_def created_line_def)

lemma entry_line_not_created: "is_entry_line sd dd e l \<Longrightarrow> \<not> is_created_line l"
  by (auto simp add: is_entry_line_def is_created_line_def copied_line_def not_found_line_def)

lemma contents_line_not_created: "\<not> is_created_line contents_line"
  by (simp add: is_created_line_def contents_line_def)

lemma str_list_not_created: "\<not> is_created_line (str_list xs)"
  by (simp add: is_created_line_def str_list_def)

lemma error_line_not_created: "\<not> is_created_line (error_line e)"
  by (simp add: is_created_line_def error_line_def)

lemma list_all2_setD: "list_all2 P xs ys \<Longrightarrow> y \<in> set ys \<Longrightarrow> \<exists>x. P x y"
  by (induction rule: list_all2_induct) auto

lemma copy_loop_plain_ext:
  assumes "copy_loop sd dd fl log w = (r, log', w')"
  shows "plain_ext log log'"
proof -
  from copy_loop_processed [OF assms] obtain n ext where
    e: "log' = log @ ext" "list_all2 (is_entry_line sd dd) (take n fl) ext"
    by blast
  have "\<forall>l \<in> set ext. \<not> is_created_line l"
    using list_all2_setD [OF e(2)] entry_line_not_created by blast
  with e(1) show ?thesis unfolding plain_ext_def by blast
qed

lemma plain_ext_trans: "plain_ext a b \<Longrightarrow> plain_ext b c \<Longrightarrow> plain_ext a c"
  unfolding plain_ext_def by auto

lemma list_step_plain_ext: "list_step dd log w = (r, log', w') \<Longrightarrow> plain_ext log log'"
  unfolding plain_ext_def list_step_def
  by (auto split: sum.splits simp add: contents_line_not_created str_list_not_created)

lemma loop_and_list_plain_ext:
  assumes "loop_and_list sd dd fl log w = (r, log', w')"
  shows "plain_ext log log'"
proof (cases "copy_loop sd dd fl log w")
  case (fields r1 l1 w1)
  have a: "plain_ext log l1" using fields by (rule copy_loop_plain_ext)
  show ?thesis
  proof (cases r1)
    case None
    with assms fields have "list_step dd l1 w1 = (r, log', w')"
      by (simp add: loop_and_list_def)
    then have "plain_ext l1 log'" by (rule list_step_plain_ext)
    with a show ?thesis by (rule plain_ext_trans)
  next
    case (Some e)
    with assms fields have "log' = l1" by (simp add: loop_and_list_def)
    with a show ?thesis by simp
  qed
qed

lemma plain_ext_Nil: "plain_ext [] log \<Longrightarrow> l \<in> set log \<Longrightarrow> \<not> is_created_line l"
  unfolding plain_ext_def by auto

lemma try_block_exists:
  "path_exists w (dst_dir cfg) \<Longrightarrow>
   try_block cfg w = loop_and_list (src_dir cfg) (dst_dir cfg) (files cfg) [] w"
  by (simp add: try_block_def)

lemma final_log_no_created:
  assumes "path_exists w (dst_dir cfg)" and "l \<in> set (final_log cfg w)"
  shows "\<not> is_created_line l"
proof (cases "try_block cfg w")
  case (fields r L w')
  with assms(1) have "loop_and_list (src_dir cfg) (dst_dir cfg) (files cfg) [] w = (r, L, w')"
    by (simp add: try_block_exists)
  then have p: "plain_ext [] L" by (rule loop_and_list_plain_ext)
  show ?thesis
  proof (cases r)
    case None
    with fields assms(2) have "l \<in> set L" by (simp add: final_log_def)
    with p show ?thesis by (rule plain_ext_Nil)
  next
    case (Some e)
    with fields assms(2) have "l \<in> set L \<or> l = error_line e" by (auto simp add: final_log_def)
    with p show ?thesis using plain_ext_Nil error_line_not_created by blast
  qed
qed

lemma copy_and_verify_same_dirs:
  "same_dirs (world_after_try cfg w) (snd (copy_and_verify cfg w))"
  by (auto simp add: copy_and_verify_def same_dirs_refl split: sum.splits dest: write_file_same_dirs)

lemma path_isdir_same_dirs: "same_dirs w w' \<Longrightarrow> path_isdir w' p = path_isdir w p"
proof -
  assume a: "same_dirs w w'"
  then have r: "resolve w' p = resolve w p" by (simp add: same_dirs_def resolve_def)
  have "(\<exists>m. lookup w' (resolve w p) = Some (Dir m)) = (\<exists>m. lookup w (resolve w p) = Some (Dir m))"
    using a by (simp add: same_dirs_def)
  then show ?thesis
    by (auto simp add: path_isdir_def r split: option.splits node.splits)
qed

text \<open>
  Claim C9. Whatever the loop returns, it has processed the first \<open>n\<close> entries of the
  manifest without an exception (all of them when it returns without one; otherwise entry
  \<open>n\<close> is the one whose copy raised). The lines it added to the log are exactly one per
  processed entry, in the order of the manifest, each being the copy line or the not-found
  line of its entry; and a copy line is never a not-found line.
\<close>

theorem loop_one_line_per_entry:
  "copy_loop sd dd fl log w = (r, log', w') \<Longrightarrow>
   (\<exists>n ext. n \<le> length fl \<and> log' = log @ ext
     \<and> list_all2 (is_entry_line sd dd) (take n fl) ext
     \<and> copy_loop sd dd (take n fl) log w = (None, log', w')
     \<and> (case r of
          None \<Rightarrow> n = length fl
        | Some e \<Rightarrow> n < length fl \<and> path_exists w' (entry_src sd (fl ! n))
            \<and> shutil_copy (entry_src sd (fl ! n)) (entry_dst dd (fl ! n)) w' = Inl e))
   \<and> (\<forall>a b c. copied_line a b \<noteq> not_found_line c)"
  using copy_loop_processed [of sd dd fl log w r log' w'] copied_not_not_found by blast

theorem loop_one_line_per_entry_witness:
  "copy_loop ''/in'' ''/out'' [(''a.png'', ''a2.png''), (''missing.png'', ''b2.png'')] [] demo_world_out
     = (None, [''Copied /in/a.png to /out/a2.png'', ''Source file not found: /in/missing.png''],
        put [''out'', ''a2.png''] (File ''PNG-A'' (Mode True True)) demo_world_out)
   \<and> (\<exists>n ext. n \<le> length [(''a.png'', ''a2.png''), (''missing.png'', ''b2.png'')]
     \<and> [''Copied /in/a.png to /out/a2.png'', ''Source file not found: /in/missing.png''] = [] @ ext
     \<and> list_all2 (is_entry_line ''/in'' ''/out'')
          (take n [(''a.png'', ''a2.png''), (''missing.png'', ''b2.png'')]) ext)"
proof -
  have h: "copy_loop ''/in'' ''/out'' [(''a.png'', ''a2.png''), (''missing.png'', ''b2.png'')] [] demo_world_out
     = (None, [''Copied /in/a.png to /out/a2.png'', ''Source file not found: /in/missing.png''],
        put [''out'', ''a2.png''] (File ''PNG-A'' (Mode True True)) demo_world_out)"
    by code_simp
  from loop_one_line_per_entry [OF h] h show ?thesis by blast
qed

text \<open>
  Claim C2. When the loop has processed the entries \<open>pre\<close> and the source path of the next
  entry does not exist, the run of the whole manifest continues with the remaining entries
  \<open>post\<close> from the same file system (nothing is created, at the destination path or
  elsewhere) and from the log extended by the one line that names the full source path as
  not found.
\<close>

theorem missing_source_logged_and_skipped:
  assumes "copy_loop sd dd pre log w = (None, L, w1)"
    and "\<not> path_exists w1 (path_join sd s)"
  shows "copy_loop sd dd (pre @ (s, d) # post) log w
           = copy_loop sd dd post (L @ [not_found_line (path_join sd s)]) w1"
  using assms by (simp add: copy_loop_append Let_def)

theorem missing_source_logged_and_skipped_witness:
  "copy_loop ''/in'' ''/out'' [(''a.png'', ''a2.png'')] [] demo_world_out
     = (None, [''Copied /in/a.png to /out/a2.png''],
        put [''out'', ''a2.png''] (File ''PNG-A'' (Mode True True)) demo_world_out)
   \<and> \<not> path_exists (put [''out'', ''a2.png''] (File ''PNG-A'' (Mode True True)) demo_world_out)
         (path_join ''/in'' ''missing.png'')
   \<and> copy_loop ''/in'' ''/out'' ([(''a.png'', ''a2.png'')] @ (''missing.png'', ''b2.png'') # [(''a.png'', ''c2.png'')])
        [] demo_world_out
     = copy_loop ''/in'' ''/out'' [(''a.png'', ''c2.png'')]
        ([''Copied /in/a.png to /out/a2.png''] @ [not_found_line (path_join ''/in'' ''missing.png'')])
        (put [''out'', ''a2.png''] (File ''PNG-A'' (Mode True True)) demo_world_out)"
proof -
  have h1: "copy_loop ''/in'' ''/out'' [(''a.png'', ''a2.png'')] [] demo_world_out
     = (None, [''Copied /in/a.png to /out/a2.png''],
        put [''out'', ''a2.png''] (File ''PNG-A'' (Mode True True)) demo_world_out)"
    by code_simp
  have h2: "\<not> path_exists (put [''out'', ''a2.png''] (File ''PNG-A'' (Mode True True)) demo_world_out)
         (path_join ''/in'' ''missing.png'')"
    by code_simp
  from missing_source_logged_and_skipped [OF h1 h2] h1 h2 show ?thesis by blast
qed

text \<open>
  Claim C7. When the guarded block ends without an exception, its log is the log of the
  completed loop followed by the line \<^verbatim>\<open>Destination contents:\<close> and by one line, the text of the
  list of the names that the destination directory holds at that moment, in the order of the
  file system's table; no error line is added.
\<close>

theorem listing_follows_entries:
  assumes "try_block cfg w = (None, L, w')"
  shows "\<exists>l0 w0 L0 names.
           copy_loop (src_dir cfg) (dst_dir cfg) (files cfg) l0 w0 = (None, L0, w')
         \<and> listdir (dst_dir cfg) w' = Inr names
         \<and> names = children w' (resolve w' (dst_dir cfg))
         \<and> L = L0 @ [contents_line, str_list names]
         \<and> final_log cfg w = L"
proof -
  have fl: "final_log cfg w = L" using assms by (simp add: final_log_def)
  have ll: "\<exists>l0 w0. loop_and_list (src_dir cfg) (dst_dir cfg) (files cfg) l0 w0 = (None, L, w')"
    using assms by (auto simp add: try_block_def split: if_splits prod.splits option.splits)
  then obtain l0 w0 where
    ll: "loop_and_list (src_dir cfg) (dst_dir cfg) (files cfg) l0 w0 = (None, L, w')" by blast
  obtain r1 L0 w1 where cl: "copy_loop (src_dir cfg) (dst_dir cfg) (files cfg) l0 w0 = (r1, L0, w1)"
    by (cases "copy_loop (src_dir cfg) (dst_dir cfg) (files cfg) l0 w0")
  from ll cl have r1: "r1 = None" and ls: "list_step (dst_dir cfg) L0 w1 = (None, L, w')"
    by (auto simp add: loop_and_list_def split: option.splits)
  from ls have w1: "w1 = w'" by (auto dest: list_step_world)
  from ls obtain names where nm: "listdir (dst_dir cfg) w1 = Inr names"
    "L = L0 @ [contents_line, str_list names]"
    by (auto simp add: list_step_def split: sum.splits)
  from nm(1) have "names = children w1 (resolve w1 (dst_dir cfg))"
    by (auto simp add: listdir_def split: if_splits option.splits node.splits)
  with cl r1 w1 nm fl show ?thesis by blast
qed

text \<open>
  Claim C10. Whenever the destination path exists, as a directory or not, the guarded block
  is the loop and the listing started from the empty log and the unchanged file system:
  \<^verbatim>\<open>os.makedirs\<close> is not called. No directory appears or disappears during the run, the
  destination is a directory afterwards exactly when it was one before, and no line of the
  log is a creation line.
\<close>

theorem existing_path_skips_creation:
  assumes "path_exists w (dst_dir cfg)"
  shows "try_block cfg w = loop_and_list (src_dir cfg) (dst_dir cfg) (files cfg) [] w
       \<and> same_dirs w (snd (copy_and_verify cfg w))
       \<and> path_isdir (snd (copy_and_verify cfg w)) (dst_dir cfg) = path_isdir w (dst_dir cfg)
       \<and> (\<forall>l \<in> set (final_log cfg w). \<not> is_created_line l)"
proof -
  have a: "try_block cfg w = loop_and_list (src_dir cfg) (dst_dir cfg) (files cfg) [] w"
    using assms by (rule try_block_exists)
  obtain r L w' where t: "try_block cfg w = (r, L, w')" by (cases "try_block cfg w")
  with a have "loop_and_list (src_dir cfg) (dst_dir cfg) (files cfg) [] w = (r, L, w')" by simp
  then have "same_dirs w w'" by (rule loop_and_list_same_dirs)
  moreover have "world_after_try cfg w = w'" using t by (simp add: world_after_try_def)
  ultimately have b: "same_dirs w (snd (copy_and_verify cfg w))"
    using copy_and_verify_same_dirs [of cfg w] by (auto intro: same_dirs_trans)
  from a b path_isdir_same_dirs [OF b] final_log_no_created [OF assms] show ?thesis by blast
qed

theorem listing_follows_entries_witness:
  "try_block demo_config demo_world
     = (None,
        [''Created directory /out'', ''Copied /in/a.png to /out/a2.png'',
         ''Source file not found: /in/missing.png'', ''Destination contents:'',
         [CHR 0x5B, CHR 0x27, CHR ''a'', CHR ''2'', CHR ''.'', CHR ''p'', CHR ''n'', CHR ''g'', CHR 0x27, CHR 0x5D]],
        put [''out'', ''a2.png''] (File ''PNG-A'' (Mode True True)) demo_world_out)
   \<and> listdir (dst_dir demo_config)
         (put [''out'', ''a2.png''] (File ''PNG-A'' (Mode True True)) demo_world_out) = Inr [''a2.png'']
   \<and> final_log demo_config demo_world
     = [''Created directory /out'', ''Copied /in/a.png to /out/a2.png'',
        ''Source file not found: /in/missing.png''] @ [contents_line, str_list [''a2.png'']]"
proof -
  have h: "try_block demo_config demo_world
     = (None,
        [''Created directory /out'', ''Copied /in/a.png to /out/a2.png'',
         ''Source file not found: /in/missing.png'', ''Destination contents:'',
         [CHR 0x5B, CHR 0x27, CHR ''a'', CHR ''2'', CHR ''.'', CHR ''p'', CHR ''n'', CHR ''g'', CHR 0x27, CHR 0x5D]],
        put [''out'', ''a2.png''] (File ''PNG-A'' (Mode True True)) demo_world_out)"
    by code_simp
  have l: "listdir (dst_dir demo_config)
         (put [''out'', ''a2.png''] (File ''PNG-A'' (Mode True True)) demo_world_out) = Inr [''a2.png'']"
    by code_simp
  from listing_follows_entries [OF h] obtain L0 names where
    n: "listdir (dst_dir demo_config)
         (put [''out'', ''a2.png''] (File ''PNG-A'' (Mode True True)) demo_world_out) = Inr names"
       "final_log demo_config demo_world
          = [''Created directory /out'', ''Copied /in/a.png to /out/a2.png'',
             ''Source file not found: /in/missing.png'', ''Destination contents:'',
             [CHR 0x5B, CHR 0x27, CHR ''a'', CHR ''2'', CHR ''.'', CHR ''p'', CHR ''n'', CHR ''g'', CHR 0x27, CHR 0x5D]]"
    by blast
  have s: "str_list [''a2.png''] = [CHR 0x5B, CHR 0x27, CHR ''a'', CHR ''2'', CHR ''.'', CHR ''p'', CHR ''n'', CHR ''g'', CHR 0x27, CHR 0x5D]"
    by code_simp
  from h l n(2) s show ?thesis by (simp add: contents_line_def)
qed

theorem existing_path_skips_creation_witness:
  "path_exists demo_world_file (dst_dir demo_config)
   \<and> \<not> path_isdir demo_world_file (dst_dir demo_config)
   \<and> try_block demo_config demo_world_file
       = loop_and_list (src_dir demo_config) (dst_dir demo_config) (files demo_config) [] demo_world_file
   \<and> \<not> path_isdir (snd (copy_and_verify demo_config demo_world_file)) (dst_dir demo_config)
   \<and> final_log demo_config demo_world_file = [error_line (NotADirectoryError ''/out/a2.png'')]"
proof -
  have h: "path_exists demo_world_file (dst_dir demo_config)" by code_simp
  have d: "\<not> path_isdir demo_world_file (dst_dir demo_config)" by code_simp
  have f: "final_log demo_config demo_world_file = [error_line (NotADirectoryError ''/out/a2.png'')]"
    by code_simp
  from existing_path_skips_creation [OF h] h d f show ?thesis by blast
qed

lemma cwd_mkdir_at: "mkdir_at k p w = (r, w') \<Longrightarrow> cwd w' = cwd w"
  by (auto simp add: mkdir_at_def split: option.splits node.splits if_splits)

lemma cwd_makedirs_at: "makedirs_at k p w = (r, w') \<Longrightarrow> cwd w' = cwd w"
proof (induction k p w arbitrary: r w' rule: makedirs_at.induct)
  case (1 k p w)
  show ?case
  proof (cases "k \<noteq> [] \<and> lookup w (butlast k) = None")
    case False
    with "1.prems" have "mkdir_at k p w = (r, w')" by (simp add: makedirs_at.simps [of k p w])
    then show ?thesis by (rule cwd_mkdir_at)
  next
    case True
    obtain r1 w1 where m: "makedirs_at (butlast k) (render (butlast k)) w = (r1, w1)"
      by (cases "makedirs_at (butlast k) (render (butlast k)) w")
    have c1: "cwd w1 = cwd w" using "1.IH" True m by blast
    show ?thesis
    proof (cases r1)
      case None
      with "1.prems" True m have "mkdir_at k p w1 = (r, w')"
        by (simp add: makedirs_at.simps [of k p w])
      then have "cwd w' = cwd w1" by (rule cwd_mkdir_at)
      with c1 show ?thesis by simp
    next
      case (Some e)
      with "1.prems" True m have "w' = w1" by (simp add: makedirs_at.simps [of k p w])
      with c1 show ?thesis by simp
    qed
  qed
qed

lemma cwd_makedirs: "makedirs p w = (r, w') \<Longrightarrow> cwd w' = cwd w"
proof (cases "p = []")
  case True
  assume "makedirs p w = (r, w')"
  with True show ?thesis by (simp add: makedirs_def)
next
  case False
  assume "makedirs p w = (r, w')"
  with False have "makedirs_at (resolve w p) p w = (r, w')" by (simp add: makedirs_def)
  then show ?thesis by (rule cwd_makedirs_at)
qed

lemma cwd_loop_and_list: "loop_and_list sd dd fl log w = (r, log', w') \<Longrightarrow> cwd w' = cwd w"
  using loop_and_list_same_dirs [of sd dd fl log w r log' w'] by (simp add: same_dirs_def)

lemma cwd_try_block:
  assumes "try_block cfg w = (r, L, w')"
  shows "cwd w' = cwd w"
proof (cases "path_exists w (dst_dir cfg)")
  case True
  with assms have "loop_and_list (src_dir cfg) (dst_dir cfg) (files cfg) [] w = (r, L, w')"
    by (simp add: try_block_def)
  then show ?thesis by (rule cwd_loop_and_list)
next
  case False
  obtain r1 w1 where m: "makedirs (dst_dir cfg) w = (r1, w1)" by (cases "makedirs (dst_dir cfg) w")
  then have c: "cwd w1 = cwd w" by (rule cwd_makedirs)
  show ?thesis
  proof (cases r1)
    case None
    with assms False m
    have "loop_and_list (src_dir cfg) (dst_dir cfg) (files cfg) [created_line (dst_dir cfg)] w1 = (r, L, w')"
      by (simp add: try_block_def)
    then have "cwd w' = cwd w1" by (rule cwd_loop_and_list)
    with c show ?thesis by simp
  next
    case (Some e)
    with assms False m have "w' = w1" by (simp add: try_block_def)
    with c show ?thesis by simp
  qed
qed

lemma cwd_world_after_try: "cwd (world_after_try cfg w) = cwd w"
  using cwd_try_block [of cfg w] by (cases "try_block cfg w") (simp add: world_after_try_def)

lemma resolve_cwd: "cwd w' = cwd w \<Longrightarrow> resolve w' p = resolve w p"
  by (simp add: resolve_def)

lemma write_file_None_content:
  assumes "write_file p b None w = Inr w'"
  shows "(\<exists>m. lookup w' (resolve w p) = Some (File b m))
   \<and> (\<forall>k. k \<noteq> resolve w p \<longrightarrow> lookup w' k = lookup w k) \<and> cwd w' = cwd w"
proof -
  from assms obtain m where "w' = put (resolve w p) (File b m) w"
    by (auto simp add: write_file_def Let_def split: if_splits option.splits node.splits)
  then show ?thesis by (simp add: lookup_put cwd_put)
qed



lemma loop_and_list_raised:
  assumes "loop_and_list sd dd fl l0 w0 = (Some e, L, w')"
  shows "(\<exists>n. n < length fl \<and> copy_loop sd dd (take n fl) l0 w0 = (None, L, w')
            \<and> path_exists w' (entry_src sd (fl ! n))
            \<and> shutil_copy (entry_src sd (fl ! n)) (entry_dst dd (fl ! n)) w' = Inl e)
       \<or> (\<exists>L0. copy_loop sd dd fl l0 w0 = (None, L0, w') \<and> listdir dd w' = Inl e
            \<and> L = L0 @ [contents_line])"
proof -
  obtain r1 L1 w1 where cl: "copy_loop sd dd fl l0 w0 = (r1, L1, w1)"
    by (cases "copy_loop sd dd fl l0 w0")
  show ?thesis
  proof (cases r1)
    case (Some e1)
    with assms cl have eq: "e1 = e" "L1 = L" "w1 = w'" by (simp_all add: loop_and_list_def)
    from copy_loop_processed [OF cl] Some eq show ?thesis by auto
  next
    case None
    with assms cl have ls: "list_step dd L1 w1 = (Some e, L, w')" by (simp add: loop_and_list_def)
    then have "w1 = w'" by (auto dest: list_step_world)
    moreover from ls have "listdir dd w1 = Inl e \<and> L = L1 @ [contents_line]"
      by (auto simp add: list_step_def split: sum.splits)
    ultimately show ?thesis using cl None by auto
  qed
qed

lemma try_block_raised:
  assumes "try_block cfg w = (Some e, L, w')"
  shows "(\<not> path_exists w (dst_dir cfg) \<and> makedirs (dst_dir cfg) w = (Some e, w') \<and> L = [])
       \<or> (\<exists>l0 w0 n. n < length (files cfg)
            \<and> copy_loop (src_dir cfg) (dst_dir cfg) (take n (files cfg)) l0 w0 = (None, L, w')
            \<and> path_exists w' (entry_src (src_dir cfg) (files cfg ! n))
            \<and> shutil_copy (entry_src (src_dir cfg) (files cfg ! n))
                 (entry_dst (dst_dir cfg) (files cfg ! n)) w' = Inl e)
       \<or> (\<exists>l0 w0 L0. copy_loop (src_dir cfg) (dst_dir cfg) (files cfg) l0 w0 = (None, L0, w')
            \<and> listdir (dst_dir cfg) w' = Inl e \<and> L = L0 @ [contents_line])"
proof (cases "path_exists w (dst_dir cfg)")
  case True
  with assms have "loop_and_list (src_dir cfg) (dst_dir cfg) (files cfg) [] w = (Some e, L, w')"
    by (simp add: try_block_def)
  from loop_and_list_raised [OF this] show ?thesis by blast
next
  case False
  obtain r1 w1 where m: "makedirs (dst_dir cfg) w = (r1, w1)" by (cases "makedirs (dst_dir cfg) w")
  show ?thesis
  proof (cases r1)
    case (Some e1)
    with assms False m have "e1 = e" "L = []" "w1 = w'" by (simp_all add: try_block_def)
    with False m Some show ?thesis by simp
  next
    case None
    with assms False m
    have "loop_and_list (src_dir cfg) (dst_dir cfg) (files cfg) [created_line (dst_dir cfg)] w1
            = (Some e, L, w')"
      by (simp add: try_block_def)
    from loop_and_list_raised [OF this] show ?thesis by blast
  qed
qed

lemma copy_and_verify_cases:
  "(case write_file log_path (join_with [CHR 0x0A] (final_log cfg w)) None (world_after_try cfg w) of
      Inl e' \<Rightarrow> copy_and_verify cfg w = (Some e', world_after_try cfg w)
    | Inr w'' \<Rightarrow> copy_and_verify cfg w = (None, w'')
        \<and> (\<exists>m. lookup w'' (resolve w log_path)
               = Some (File (join_with [CHR 0x0A] (final_log cfg w)) m))
        \<and> (\<forall>k. k \<noteq> resolve w log_path \<longrightarrow> lookup w'' k = lookup (world_after_try cfg w) k))"
proof (cases "write_file log_path (join_with [CHR 0x0A] (final_log cfg w)) None (world_after_try cfg w)")
  case (Inl e')
  then show ?thesis by (simp add: copy_and_verify_def)
next
  case (Inr w'')
  have r: "resolve (world_after_try cfg w) log_path = resolve w log_path"
    by (rule resolve_cwd) (rule cwd_world_after_try)
  from write_file_None_content [OF Inr] Inr r show ?thesis
    by (simp add: copy_and_verify_def)
qed

text \<open>
  Claim C3, as amended. When the guarded block raises \<open>e\<close> with the log \<open>L\<close> accumulated
  so far, the final log is \<open>L\<close> followed by the one line \<^verbatim>\<open>Error: \<close> and the text of \<open>e\<close>.
  The exception comes from \<^verbatim>\<open>os.makedirs\<close> (nothing logged yet), or from the copy of entry
  \<open>n\<close> after the first \<open>n\<close> entries were processed (the later entries and the listing are
  not run), or from \<^verbatim>\<open>os.listdir\<close> after the heading was logged. The script then goes on
  to write exactly that log; the file holds it, and nothing else changes, unless this last
  write raises as well, in which case its exception leaves the script.
\<close>

theorem failure_is_logged:
  assumes "try_block cfg w = (Some e, L, w')"
  shows "final_log cfg w = L @ [error_line e]
     \<and> ((\<not> path_exists w (dst_dir cfg) \<and> makedirs (dst_dir cfg) w = (Some e, w') \<and> L = [])
       \<or> (\<exists>l0 w0 n. n < length (files cfg)
            \<and> copy_loop (src_dir cfg) (dst_dir cfg) (take n (files cfg)) l0 w0 = (None, L, w')
            \<and> path_exists w' (entry_src (src_dir cfg) (files cfg ! n))
            \<and> shutil_copy (entry_src (src_dir cfg) (files cfg ! n))
                 (entry_dst (dst_dir cfg) (files cfg ! n)) w' = Inl e)
       \<or> (\<exists>l0 w0 L0. copy_loop (src_dir cfg) (dst_dir cfg) (files cfg) l0 w0 = (None, L0, w')
            \<and> listdir (dst_dir cfg) w' = Inl e \<and> L = L0 @ [contents_line]))
     \<and> (case write_file log_path (join_with [CHR 0x0A] (L @ [error_line e])) None w' of
          Inl e' \<Rightarrow> copy_and_verify cfg w = (Some e', w')
        | Inr w'' \<Rightarrow> copy_and_verify cfg w = (None, w'')
            \<and> (\<exists>m. lookup w'' (resolve w log_path)
                   = Some (File (join_with [CHR 0x0A] (L @ [error_line e])) m))
            \<and> (\<forall>k. k \<noteq> resolve w log_path \<longrightarrow> lookup w'' k = lookup w' k))"
proof -
  have f: "final_log cfg w = L @ [error_line e]" using assms by (simp add: final_log_def)
  have a: "world_after_try cfg w = w'" using assms by (simp add: world_after_try_def)
  have c: "case write_file log_path (join_with [CHR 0x0A] (L @ [error_line e])) None w' of
          Inl e' \<Rightarrow> copy_and_verify cfg w = (Some e', w')
        | Inr w'' \<Rightarrow> copy_and_verify cfg w = (None, w'')
            \<and> (\<exists>m. lookup w'' (resolve w log_path)
                   = Some (File (join_with [CHR 0x0A] (L @ [error_line e])) m))
            \<and> (\<forall>k. k \<noteq> resolve w log_path \<longrightarrow> lookup w'' k = lookup w' k)"
    using copy_and_verify_cases [of cfg w] unfolding f a .
  show ?thesis
    by (intro conjI) (rule f, rule try_block_raised [OF assms], rule c)
qed

theorem failure_is_logged_witness:
  "try_block demo_config demo_world_file = (Some (NotADirectoryError ''/out/a2.png''), [], demo_world_file)
   \<and> final_log demo_config demo_world_file = [] @ [error_line (NotADirectoryError ''/out/a2.png'')]
   \<and> copy_and_verify demo_config demo_world_file
       = (None, put [''work'', ''copy_log.txt'']
            (File (error_line (NotADirectoryError ''/out/a2.png'')) (Mode True True)) demo_world_file)"
proof -
  have h: "try_block demo_config demo_world_file
             = (Some (NotADirectoryError ''/out/a2.png''), [], demo_world_file)"
    by code_simp
  have c: "copy_and_verify demo_config demo_world_file
       = (None, put [''work'', ''copy_log.txt'']
            (File (error_line (NotADirectoryError ''/out/a2.png'')) (Mode True True)) demo_world_file)"
    by code_simp
  from failure_is_logged [OF h] h c show ?thesis by blast
qed

text \<open>
  The claim as stated fails when the write of the log fails too: the first image is a
  directory (the copy raises) and \<^verbatim>\<open>copy_log.txt\<close> is a directory (the write raises).
\<close>

theorem failure_is_logged_counterexample:
  "fst (try_block the_config faulty_world)
     = Some (IsADirectoryError (path_join (src_dir the_config) ''technomancer_epic_box_1764234646053.png''))
   \<and> fst (main faulty_world) = Some (IsADirectoryError ''copy_log.txt'')
   \<and> lookup (snd (main faulty_world)) (resolve faulty_world log_path) = Some (Dir (Mode True True))"
  by code_simp




text \<open>
  Claim C8, as amended. Whenever the script ends normally, the file at the fixed path
  \<^verbatim>\<open>copy_log.txt\<close> holds exactly the lines of the final log joined by single newline
  characters, whatever it held before, and that write changes no other path.
\<close>

theorem log_file_content:
  assumes "fst (copy_and_verify cfg w) = None"
  shows "(\<exists>m. lookup (snd (copy_and_verify cfg w)) (resolve w log_path)
               = Some (File (join_with [CHR 0x0A] (final_log cfg w)) m))
       \<and> (\<forall>k. k \<noteq> resolve w log_path \<longrightarrow>
               lookup (snd (copy_and_verify cfg w)) k = lookup (world_after_try cfg w) k)"
proof (cases "write_file log_path (join_with [CHR 0x0A] (final_log cfg w)) None (world_after_try cfg w)")
  case (Inl e')
  with assms show ?thesis by (simp add: copy_and_verify_def)
next
  case (Inr w'')
  with copy_and_verify_cases [of cfg w] show ?thesis by simp
qed

theorem log_file_content_witness:
  "fst (copy_and_verify demo_config demo_world) = None
   \<and> (\<exists>m. lookup (snd (copy_and_verify demo_config demo_world)) (resolve demo_world log_path)
               = Some (File (join_with [CHR 0x0A] (final_log demo_config demo_world)) m))
   \<and> final_log demo_config demo_world
       = [created_line ''/out'', copied_line ''/in/a.png'' ''/out/a2.png'',
          not_found_line ''/in/missing.png'', contents_line, str_list [''a2.png'']]"
proof -
  have h: "fst (copy_and_verify demo_config demo_world) = None" by code_simp
  have f: "final_log demo_config demo_world
       = [created_line ''/out'', copied_line ''/in/a.png'' ''/out/a2.png'',
          not_found_line ''/in/missing.png'', contents_line, str_list [''a2.png'']]"
    by code_simp
  from log_file_content [OF h] h f show ?thesis by blast
qed

text \<open>
  The claim as stated fails on a run whose last write raises: with a read-only
  \<^verbatim>\<open>copy_log.txt\<close> left by somebody else the file keeps its old content.
\<close>

theorem log_file_content_counterexample:
  "fst (main stale_log_world) = Some (PermissionError ''copy_log.txt'')
   \<and> lookup (snd (main stale_log_world)) (resolve stale_log_world log_path)
       = Some (File ''old log'' (Mode True False))
   \<and> join_with [CHR 0x0A] (final_log the_config stale_log_world) \<noteq> ''old log''"
  by code_simp














lemma try_block_loop_start:
  "loop_start cfg w = Some (l0, wL) \<Longrightarrow>
   try_block cfg w = loop_and_list (src_dir cfg) (dst_dir cfg) (files cfg) l0 wL"
  by (auto simp add: loop_start_def try_block_def split: if_splits prod.splits option.splits)

lemma cwd_loop_start: "loop_start cfg w = Some (l0, wL) \<Longrightarrow> cwd wL = cwd w"
proof -
  assume a: "loop_start cfg w = Some (l0, wL)"
  show ?thesis
  proof (cases "path_exists w (dst_dir cfg)")
    case True
    with a show ?thesis by (simp add: loop_start_def)
  next
    case False
    obtain r w1 where m: "makedirs (dst_dir cfg) w = (r, w1)" by (cases "makedirs (dst_dir cfg) w")
    with a False have "wL = w1" by (auto simp add: loop_start_def split: option.splits)
    with cwd_makedirs [OF m] show ?thesis by simp
  qed
qed

lemma shutil_copy_ok:
  assumes "shutil_copy src dst w = Inr w'"
  shows "\<exists>b m. lookup w (resolve w src) = Some (File b m)
           \<and> w' = put (resolve w (copy_target w src dst)) (File b m) w"
proof -
  from assms obtain b m where r: "open_read src w = Inr (b, m)"
    and wr: "write_file (copy_target w src dst) b (Some m) w = Inr w'"
    by (auto simp add: shutil_copy_def Let_def split: if_splits sum.splits)
  from r have "lookup w (resolve w src) = Some (File b m)"
    by (auto simp add: open_read_def split: if_splits option.splits node.splits)
  moreover from wr have "w' = put (resolve w (copy_target w src dst)) (File b m) w"
    by (auto simp add: write_file_def Let_def split: if_splits option.splits node.splits)
  ultimately show ?thesis by blast
qed

lemma cwd_shutil_copy: "shutil_copy src dst w = Inr w' \<Longrightarrow> cwd w' = cwd w"
  using shutil_copy_same_dirs [of src dst w w'] by (simp add: same_dirs_def)

lemma cwd_copy_loop: "copy_loop sd dd fl log w = (r, log', w') \<Longrightarrow> cwd w' = cwd w"
  using copy_loop_same_dirs [of sd dd fl log w r log' w'] by (simp add: same_dirs_def)

lemma shutil_copy_frame:
  assumes "shutil_copy src dst w = Inr w'"
    and "resolve w dst \<noteq> k" and "resolve w (path_join dst (basename src)) \<noteq> k"
  shows "lookup w' k = lookup w k"
proof -
  from shutil_copy_ok [OF assms(1)] obtain b m where
    w': "w' = put (resolve w (copy_target w src dst)) (File b m) w" by blast
  have "resolve w (copy_target w src dst) \<noteq> k"
    using assms(2,3) by (simp add: copy_target_def)
  then show ?thesis by (auto simp add: w' lookup_put)
qed

lemma copy_loop_frame:
  "copy_loop sd dd fl log w = (r, log', w') \<Longrightarrow>
   \<forall>e \<in> set fl. writes_elsewhere w sd dd k e \<Longrightarrow>
   lookup w' k = lookup w k"
proof (induction fl arbitrary: log w)
  case Nil
  then show ?case by simp
next
  case (Cons a fl)
  obtain s d where a: "a = (s, d)" by (cases a)
  let ?src = "path_join sd s" and ?dst = "path_join dd d"
  show ?case
  proof (cases "path_exists w ?src")
    case False
    with Cons.prems(1) a
    have "copy_loop sd dd fl (log @ [not_found_line ?src]) w = (r, log', w')" by (simp add: Let_def)
    moreover have "\<forall>e \<in> set fl. writes_elsewhere w sd dd k e" using Cons.prems(2) by simp
    ultimately show ?thesis by (rule Cons.IH)
  next
    case True
    show ?thesis
    proof (cases "shutil_copy ?src ?dst w")
      case (Inl e)
      with Cons.prems(1) a True show ?thesis by (simp add: Let_def)
    next
      case (Inr w1)
      with Cons.prems(1) a True
      have l: "copy_loop sd dd fl (log @ [copied_line ?src ?dst]) w1 = (r, log', w')"
        by (simp add: Let_def)
      have c: "cwd w1 = cwd w" using Inr by (rule cwd_shutil_copy)
      have "\<forall>e \<in> set fl. writes_elsewhere w1 sd dd k e"
        using Cons.prems(2) by (simp add: writes_elsewhere_def resolve_cwd [OF c])
      with l have "lookup w' k = lookup w1 k" by (rule Cons.IH)
      moreover have "writes_elsewhere w sd dd k (s, d)" using Cons.prems(2) a by simp
      then have "lookup w1 k = lookup w k"
        using shutil_copy_frame [OF Inr, of k]
        by (simp add: writes_elsewhere_def entry_src_def entry_dst_def)
      ultimately show ?thesis by simp
    qed
  qed
qed

lemma loop_and_list_world:
  "loop_and_list sd dd fl log w = (r, log', w') \<Longrightarrow>
   w' = snd (snd (copy_loop sd dd fl log w))"
  by (cases "copy_loop sd dd fl log w")
     (auto simp add: loop_and_list_def list_step_def split: option.splits sum.splits)

lemma copy_loop_log_ext: "copy_loop sd dd fl log w = (r, log', w') \<Longrightarrow> \<exists>ext. log' = log @ ext"
  using copy_loop_processed [of sd dd fl log w r log' w'] by blast

lemma loop_and_list_log_ext:
  "loop_and_list sd dd fl log w = (r, log', w') \<Longrightarrow>
   \<exists>ext. log' = fst (snd (copy_loop sd dd fl log w)) @ ext"
  by (cases "copy_loop sd dd fl log w")
     (auto simp add: loop_and_list_def list_step_def split: option.splits sum.splits)

lemma final_world_frame:
  "k \<noteq> resolve w log_path \<Longrightarrow>
   lookup (snd (copy_and_verify cfg w)) k = lookup (world_after_try cfg w) k"
  using copy_and_verify_cases [of cfg w]
  by (cases "write_file log_path (join_with [CHR 0x0A] (final_log cfg w)) None (world_after_try cfg w)")
     simp_all

text \<open>
  Claim C1, as amended. Let the loop have processed the entries \<open>pre\<close>, let the source path
  of the next entry exist and let its copy raise nothing. Then the loop goes on with the
  remaining entries and with the log extended by the one line that records the copy, and
  that line stays in the final log. The source is a regular file, and the file the copy
  writes (the destination path itself unless that path is an existing directory, in which
  case a file inside it named after the source) holds the bytes and the mode of the source,
  no other path being changed by the copy. At the end of the run that file still holds the
  same bytes, provided no later entry writes to it and it is not the log file.
\<close>

theorem copy_entry:
  assumes fl: "files cfg = pre @ (s, d) # post"
    and st: "loop_start cfg w = Some (l0, wL)"
    and pre: "copy_loop (src_dir cfg) (dst_dir cfg) pre l0 wL = (None, L, w1)"
    and ex: "path_exists w1 (path_join (src_dir cfg) s)"
    and ok: "shutil_copy (path_join (src_dir cfg) s) (path_join (dst_dir cfg) d) w1 = Inr w2"
  shows "copy_loop (src_dir cfg) (dst_dir cfg) (files cfg) l0 wL
           = copy_loop (src_dir cfg) (dst_dir cfg) post
               (L @ [copied_line (path_join (src_dir cfg) s) (path_join (dst_dir cfg) d)]) w2
     \<and> (\<exists>rest. final_log cfg w
           = L @ [copied_line (path_join (src_dir cfg) s) (path_join (dst_dir cfg) d)] @ rest)
     \<and> (\<exists>b m. lookup w1 (resolve w (path_join (src_dir cfg) s)) = Some (File b m)
          \<and> lookup w2 (resolve w (copy_target w1 (path_join (src_dir cfg) s) (path_join (dst_dir cfg) d)))
              = Some (File b m)
          \<and> (\<forall>k. k \<noteq> resolve w (copy_target w1 (path_join (src_dir cfg) s) (path_join (dst_dir cfg) d))
                \<longrightarrow> lookup w2 k = lookup w1 k)
          \<and> ((\<forall>e \<in> set post. writes_elsewhere w (src_dir cfg) (dst_dir cfg)
                   (resolve w (copy_target w1 (path_join (src_dir cfg) s) (path_join (dst_dir cfg) d))) e)
               \<and> resolve w log_path
                   \<noteq> resolve w (copy_target w1 (path_join (src_dir cfg) s) (path_join (dst_dir cfg) d))
              \<longrightarrow> lookup (snd (copy_and_verify cfg w))
                     (resolve w (copy_target w1 (path_join (src_dir cfg) s) (path_join (dst_dir cfg) d)))
                    = Some (File b m)))
     \<and> (\<not> path_isdir w1 (path_join (dst_dir cfg) d)
          \<longrightarrow> copy_target w1 (path_join (src_dir cfg) s) (path_join (dst_dir cfg) d)
                = path_join (dst_dir cfg) d)"
proof -
  let ?sd = "src_dir cfg" and ?dd = "dst_dir cfg"
  let ?src = "path_join (src_dir cfg) s" and ?dst = "path_join (dst_dir cfg) d"
  let ?line = "copied_line ?src ?dst"
  let ?kt = "resolve w (copy_target w1 ?src ?dst)"
  have cL: "cwd wL = cwd w" using st by (rule cwd_loop_start)
  have c1: "cwd w1 = cwd w" using cwd_copy_loop [OF pre] cL by simp
  have c2: "cwd w2 = cwd w" using cwd_shutil_copy [OF ok] c1 by simp
  have r1: "\<And>p. resolve w1 p = resolve w p" using c1 by (rule resolve_cwd)
  have r2: "\<And>p. resolve w2 p = resolve w p" using c2 by (rule resolve_cwd)
  \<comment> \<open>the loop goes on after this entry\<close>
  have step: "copy_loop ?sd ?dd ((s, d) # post) L w1 = copy_loop ?sd ?dd post (L @ [?line]) w2"
    using ex ok by (rule copy_loop_step_copied)
  have A: "copy_loop ?sd ?dd (files cfg) l0 wL = copy_loop ?sd ?dd post (L @ [?line]) w2"
    using pre step by (simp add: fl copy_loop_append)
  \<comment> \<open>what the copy did\<close>
  from shutil_copy_ok [OF ok] obtain b m where
    src: "lookup w1 (resolve w ?src) = Some (File b m)"
    and w2: "w2 = put ?kt (File b m) w1"
    by (auto simp add: r1)
  have at: "lookup w2 ?kt = Some (File b m)" by (simp add: w2 lookup_put)
  have other: "\<forall>k. k \<noteq> ?kt \<longrightarrow> lookup w2 k = lookup w1 k" by (simp add: w2 lookup_put)
  \<comment> \<open>the rest of the run\<close>
  obtain r3 L3 w3 where rest: "copy_loop ?sd ?dd post (L @ [?line]) w2 = (r3, L3, w3)"
    by (cases "copy_loop ?sd ?dd post (L @ [?line]) w2")
  obtain r4 L4 w4 where tb: "try_block cfg w = (r4, L4, w4)" by (cases "try_block cfg w")
  have ll: "loop_and_list ?sd ?dd (files cfg) l0 wL = (r4, L4, w4)"
    using tb try_block_loop_start [OF st] by simp
  have w4: "w4 = w3" using loop_and_list_world [OF ll] A rest by simp
  from copy_loop_log_ext [OF rest] obtain e1 where e1: "L3 = (L @ [?line]) @ e1" by blast
  from loop_and_list_log_ext [OF ll] A rest obtain e2 where e2: "L4 = L3 @ e2" by auto
  have B: "\<exists>rest. final_log cfg w = L @ [?line] @ rest"
  proof (cases r4)
    case None
    with tb e1 e2 show ?thesis by (simp add: final_log_def)
  next
    case (Some e)
    with tb e1 e2 show ?thesis by (simp add: final_log_def)
  qed
  have C: "(\<forall>e \<in> set post. writes_elsewhere w ?sd ?dd ?kt e) \<and> resolve w log_path \<noteq> ?kt
             \<longrightarrow> lookup (snd (copy_and_verify cfg w)) ?kt = Some (File b m)"
  proof
    assume h: "(\<forall>e \<in> set post. writes_elsewhere w ?sd ?dd ?kt e) \<and> resolve w log_path \<noteq> ?kt"
    then have "\<forall>e \<in> set post. writes_elsewhere w2 ?sd ?dd ?kt e"
      by (simp add: writes_elsewhere_def r2)
    with rest have "lookup w3 ?kt = lookup w2 ?kt" by (rule copy_loop_frame)
    moreover have "world_after_try cfg w = w3" using tb w4 by (simp add: world_after_try_def)
    moreover have "?kt \<noteq> resolve w log_path" using h by auto
    ultimately show "lookup (snd (copy_and_verify cfg w)) ?kt = Some (File b m)"
      using at by (simp add: final_world_frame)
  qed
  have D: "\<not> path_isdir w1 ?dst \<longrightarrow> copy_target w1 ?src ?dst = ?dst"
    by (simp add: copy_target_def)
  from A B src at other C D show ?thesis by blast
qed

theorem copy_entry_witness:
  "files demo_config = [] @ (''a.png'', ''a2.png'') # [(''missing.png'', ''b2.png'')]
   \<and> loop_start demo_config demo_world = Some ([created_line ''/out''], demo_world_out)
   \<and> path_exists demo_world_out (path_join (src_dir demo_config) ''a.png'')
   \<and> shutil_copy (path_join (src_dir demo_config) ''a.png'') (path_join (dst_dir demo_config) ''a2.png'')
        demo_world_out
       = Inr (put [''out'', ''a2.png''] (File ''PNG-A'' (Mode True True)) demo_world_out)
   \<and> lookup demo_world_out [''in'', ''a.png''] = Some (File ''PNG-A'' (Mode True True))
   \<and> lookup (snd (copy_and_verify demo_config demo_world)) [''out'', ''a2.png'']
       = Some (File ''PNG-A'' (Mode True True))
   \<and> (\<exists>rest. final_log demo_config demo_world
         = [created_line ''/out''] @ [copied_line ''/in/a.png'' ''/out/a2.png''] @ rest)"
proof -
  have h1: "files demo_config = [] @ (''a.png'', ''a2.png'') # [(''missing.png'', ''b2.png'')]"
    by code_simp
  have h2: "loop_start demo_config demo_world = Some ([created_line ''/out''], demo_world_out)"
    by code_simp
  have h3: "copy_loop (src_dir demo_config) (dst_dir demo_config) [] [created_line ''/out''] demo_world_out
              = (None, [created_line ''/out''], demo_world_out)"
    by simp
  have h4: "path_exists demo_world_out (path_join (src_dir demo_config) ''a.png'')" by code_simp
  have h5: "shutil_copy (path_join (src_dir demo_config) ''a.png'') (path_join (dst_dir demo_config) ''a2.png'')
        demo_world_out
       = Inr (put [''out'', ''a2.png''] (File ''PNG-A'' (Mode True True)) demo_world_out)"
    by code_simp
  have k: "resolve demo_world (copy_target demo_world_out (path_join (src_dir demo_config) ''a.png'')
             (path_join (dst_dir demo_config) ''a2.png'')) = [''out'', ''a2.png'']"
    by code_simp
  have s: "resolve demo_world (path_join (src_dir demo_config) ''a.png'') = [''in'', ''a.png'']"
    by code_simp
  have l: "lookup demo_world_out [''in'', ''a.png''] = Some (File ''PNG-A'' (Mode True True))"
    by code_simp
  have e: "writes_elsewhere demo_world (src_dir demo_config) (dst_dir demo_config) [''out'', ''a2.png'']
             (''missing.png'', ''b2.png'')"
    by code_simp
  have g: "resolve demo_world log_path \<noteq> [''out'', ''a2.png'']" by code_simp
  have p1: "path_join (src_dir demo_config) ''a.png'' = ''/in/a.png''" by code_simp
  have p2: "path_join (dst_dir demo_config) ''a2.png'' = ''/out/a2.png''" by code_simp
  from copy_entry [OF h1 h2 h3 h4 h5] k s l e g
  have "lookup (snd (copy_and_verify demo_config demo_world)) [''out'', ''a2.png'']
       = Some (File ''PNG-A'' (Mode True True))"
    and "\<exists>rest. final_log demo_config demo_world
         = [created_line ''/out''] @ [copied_line ''/in/a.png'' ''/out/a2.png''] @ rest"
    by (auto simp add: p1 p2)
  with h1 h2 h4 h5 l show ?thesis by blast
qed

text \<open>
  The claim as stated fails when the destination path is an existing directory: the copy
  raises nothing and is logged, the image lands inside that directory, and after the run
  the destination path is still a directory, not a file with the bytes of the source.
\<close>

theorem copy_entry_counterexample:
  "path_exists dir_destination_world
     (path_join (src_dir the_config) ''technomancer_epic_box_1764234646053.png'')
   \<and> main dir_destination_world
       = (None, put logfile (File (join_with [CHR 0x0A] (final_log the_config dir_destination_world))
                  (Mode True True))
                 (put (decks @ [''technomancer-box.png'', ''technomancer_epic_box_1764234646053.png''])
                    (File ''PNG-1'' (Mode True True)) dir_destination_world))
   \<and> hd (final_log the_config dir_destination_world)
       = copied_line (path_join (src_dir the_config) ''technomancer_epic_box_1764234646053.png'')
           (path_join (dst_dir the_config) ''technomancer-box.png'')
   \<and> lookup (snd (main dir_destination_world))
        (resolve dir_destination_world (path_join (dst_dir the_config) ''technomancer-box.png''))
       = Some (Dir (Mode True True))"
  by code_simp

end
